theory Spec2Isabelle
  imports Main
begin

section \<open>Data model of \<open>main.py\<close>\<close>

text \<open>
  Timestamps are whole seconds since the epoch, the resolution of the \<open>datetime64[s]\<close>
  columns; a \<open>timedelta\<close> is a number of seconds. \<open>None\<close> in a date column is pandas'
  \<open>NaT\<close>, \<open>None\<close> in the \<open>id\<close> column is a null identifier (JSON \<open>null\<close>, \<open>NaN\<close>).
  Grades are values of any linearly ordered type (the source only compares them for
  equality and sorts them); a null grade is outside the model.
\<close>

type_synonym timestamp = int
type_synonym timedelta = int
type_synonym path = string

definition timedelta_days :: "int \<Rightarrow> timedelta" where
  "timedelta_days n = n * 86400"

text \<open>
  A value of a date column of the JSON response, classified by what
  \<open>astype('datetime64[s]')\<close> makes of it: a null becomes \<open>NaT\<close>, a well-formed date
  becomes its timestamp, anything else raises \<open>ValueError\<close>.
\<close>

datatype json_date = JNull | JDate timestamp | JMalformed

text \<open>A row of the data frame built from the response (line 78), before the casts.\<close>

record 'g raw_climb =
  raw_id :: "int option"
  raw_grade :: 'g
  raw_date_live_start :: json_date
  raw_date_live_end :: json_date

text \<open>A row of the climbs table: the columns \<open>id\<close>, \<open>grade\<close>, \<open>date_live_start\<close>,
  \<open>date_live_end\<close> the source reads.\<close>

record 'g climb =
  climb_id :: "int option"
  grade :: 'g
  date_live_start :: "timestamp option"
  date_live_end :: "timestamp option"

text \<open>
  A pickled data frame is either a climbs table or the derived table whose rows are
  \<open>((date, grade), count)\<close>. \<open>read_pickle\<close> hands back whichever one the file holds.
\<close>

datatype 'g dataframe =
    Climbs "'g climb list"
  | DatesGrades "((timestamp \<times> 'g) \<times> nat) list"

datatype error = RequestError | ValueError | AttributeError

text \<open>
  The steps of a run that the specification counts, in the order they happen: the
  effects on the files and on the remote source, and \<open>Compute f\<close>, the point where the
  table kept at \<open>f\<close> starts being computed from \<open>self.climbs\<close> (line 93).
\<close>

datatype event =
    Exists path
  | Stat path
  | ReadPickle path
  | ToPickle path
  | HttpGet string
  | Compute path

text \<open>
  The environment of a run: the files (modification time and content), the wall clock,
  what \<open>requests.get(URL_CLIMBS).json()\<close> yields, and the effects so far. A run is
  short against the ten-day threshold, so every reading of the clock within one run
  gives the same \<open>clock\<close>.
\<close>

record 'g world =
  files :: "path \<rightharpoonup> (timestamp \<times> 'g dataframe)"
  clock :: timestamp
  response :: "error + 'g raw_climb list"
  trace :: "event list"

text \<open>The object \<open>self\<close>: its only attribute is \<open>climbs\<close> (line 23).\<close>

record 'g PlotClimbs =
  climbs :: "'g dataframe"

definition URL_CLIMBS :: string where
  "URL_CLIMBS = ''https://api.toplogger.nu/v1/gyms/21/climbs/''"

definition DF_DATES_GRADES_PICKLE_PATH :: path where
  "DF_DATES_GRADES_PICKLE_PATH = ''df_dates_grades.pkl''"

definition DF_CLIMBS_PICKLE_PATH :: path where
  "DF_CLIMBS_PICKLE_PATH = ''df_climbs.pkl''"

section \<open>The cache files: \<open>_load_pickle\<close> and \<open>_save_df_to_pickle\<close>\<close>

definition log_event :: "event \<Rightarrow> 'g world \<Rightarrow> 'g world" where
  "log_event e w = w\<lparr>trace := trace w @ [e]\<rparr>"

text \<open>Lines 112 to 122. Falling off the end of the function returns \<open>None\<close>.\<close>

definition load_pickle ::
  "path \<Rightarrow> timedelta option \<Rightarrow> 'g world \<Rightarrow> 'g dataframe option \<times> 'g world" where
  "load_pickle f age_max w =
     (let w1 = log_event (Exists f) w in
      case files w f of
        None \<Rightarrow> (None, w1)
      | Some (mtime, content) \<Rightarrow>
          (let w2 = log_event (Stat f) w1;
               age = clock w - mtime
           in if (case age_max of None \<Rightarrow> True | Some limit \<Rightarrow> age < limit)
              then (Some content, log_event (ReadPickle f) w2)
              else (None, w2)))"

text \<open>Lines 125 to 127: the file is created or overwritten, and its modification time
  is the time of the write.\<close>

definition save_df_to_pickle :: "'g dataframe \<Rightarrow> path \<Rightarrow> 'g world \<Rightarrow> 'g world" where
  "save_df_to_pickle df f w =
     log_event (ToPickle f) (w\<lparr>files := (files w)(f \<mapsto> (clock w, df))\<rparr>)"

section \<open>The raw climbs table: \<open>_load_climbs\<close>\<close>

definition astype_datetime64 :: "json_date \<Rightarrow> error + timestamp option" where
  "astype_datetime64 v =
     (case v of JNull \<Rightarrow> Inr None | JDate t \<Rightarrow> Inr (Some t) | JMalformed \<Rightarrow> Inl ValueError)"

text \<open>The cast of a whole column: the first value that does not parse raises.\<close>

fun astype_column :: "json_date list \<Rightarrow> error + timestamp option list" where
  "astype_column [] = Inr []"
| "astype_column (v # vs) =
     (case astype_datetime64 v of
        Inl e \<Rightarrow> Inl e
      | Inr t \<Rightarrow> (case astype_column vs of Inl e \<Rightarrow> Inl e | Inr ts \<Rightarrow> Inr (t # ts)))"

definition typed_row :: "'g raw_climb \<times> timestamp option \<times> timestamp option \<Rightarrow> 'g climb" where
  "typed_row x = (case x of (r, s, e) \<Rightarrow>
     \<lparr>climb_id = raw_id r, grade = raw_grade r, date_live_start = s, date_live_end = e\<rparr>)"

definition fill_live_end :: "timestamp \<Rightarrow> 'g climb \<Rightarrow> 'g climb" where
  "fill_live_end today c =
     (if date_live_end c = None then c\<lparr>date_live_end := Some today\<rparr> else c)"

definition has_live_start :: "'g climb \<Rightarrow> bool" where
  "has_live_start c = (date_live_start c \<noteq> None)"

text \<open>
  Lines 80 to 83, on the frame of line 78. A response with no records gives a frame
  with no columns, and line 80 raises \<open>AttributeError\<close> on it. Otherwise both date
  columns are cast (line 80, then 81), a null \<open>date_live_end\<close> is set to
  \<open>datetime.today()\<close> (line 82) and the rows with a null \<open>date_live_start\<close> are dropped
  (line 83).
\<close>

definition normalise :: "timestamp \<Rightarrow> 'g raw_climb list \<Rightarrow> error + 'g climb list" where
  "normalise today df =
     (if df = [] then Inl AttributeError
      else case astype_column (map raw_date_live_start df) of
        Inl e \<Rightarrow> Inl e
      | Inr starts \<Rightarrow>
          (case astype_column (map raw_date_live_end df) of
             Inl e \<Rightarrow> Inl e
           | Inr ends \<Rightarrow>
               Inr (filter has_live_start
                     (map (fill_live_end today)
                       (map typed_row (zip df (zip starts ends)))))))"

text \<open>Lines 73 to 87.\<close>

definition load_climbs :: "'g world \<Rightarrow> (error + 'g dataframe) \<times> 'g world" where
  "load_climbs w =
     (case load_pickle DF_CLIMBS_PICKLE_PATH (Some (timedelta_days 10)) w of
        (Some df_pickle, w1) \<Rightarrow> (Inr df_pickle, w1)
      | (None, w1) \<Rightarrow>
          (let w2 = log_event (HttpGet URL_CLIMBS) w1 in
           case response w of
             Inl e \<Rightarrow> (Inl e, w2)
           | Inr records \<Rightarrow>
               (case normalise (clock w) records of
                  Inl e \<Rightarrow> (Inl e, w2)
                | Inr df \<Rightarrow>
                    (Inr (Climbs df), save_df_to_pickle (Climbs df) DF_CLIMBS_PICKLE_PATH w2))))"

section \<open>The derived table: \<open>_routes_avail_per_day\<close> and \<open>_load_dates_grades\<close>\<close>

text \<open>
  Comparing a \<open>NaT\<close> with a date is false, so a row with a null date passes neither
  filter.
\<close>

definition starts_by :: "timestamp \<Rightarrow> 'g climb \<Rightarrow> bool" where
  "starts_by date c = (case date_live_start c of None \<Rightarrow> False | Some s \<Rightarrow> s \<le> date)"

definition ends_from :: "timestamp \<Rightarrow> 'g climb \<Rightarrow> bool" where
  "ends_from date c = (case date_live_end c of None \<Rightarrow> False | Some e \<Rightarrow> e \<ge> date)"

text \<open>\<open>Series.count()\<close>: the number of values that are not null.\<close>

definition series_count :: "'a option list \<Rightarrow> nat" where
  "series_count col = length (filter (\<lambda>v. v \<noteq> None) col)"

text \<open>
  Lines 52 to 58. The first argument is the table \<open>self.climbs\<close>; each indexing with a
  mask builds a new frame of the rows that pass.
\<close>

definition routes_avail_per_day :: "'g climb list \<Rightarrow> timestamp \<times> 'g \<Rightarrow> nat" where
  "routes_avail_per_day self_climbs date_grade =
     (case date_grade of (date, g) \<Rightarrow>
        (let df_tmp = filter (\<lambda>c. grade c = g) self_climbs;
             df_tmp = filter (starts_by date) df_tmp;
             df_tmp = filter (ends_from date) df_tmp
         in series_count (map climb_id df_tmp)))"

fun dropna :: "'a option list \<Rightarrow> 'a list" where
  "dropna [] = []"
| "dropna (None # vs) = dropna vs"
| "dropna (Some v # vs) = v # dropna vs"

text \<open>\<open>min()\<close> and \<open>max()\<close> of a date column: \<open>NaT\<close> when the column is empty.\<close>

fun series_min :: "timestamp list \<Rightarrow> timestamp option" where
  "series_min [] = None"
| "series_min (v # vs) = Some (fold min vs v)"

fun series_max :: "timestamp list \<Rightarrow> timestamp option" where
  "series_max [] = None"
| "series_max (v # vs) = Some (fold max vs v)"

text \<open>
  \<open>pd.date_range(start, end, freq='D')\<close>: \<open>start\<close>, then one more value every 24 hours
  while it is not after \<open>end\<close>; each value keeps the time of day of \<open>start\<close>. A \<open>NaT\<close>
  bound raises \<open>ValueError\<close>.
\<close>

definition date_range :: "timestamp option \<Rightarrow> timestamp option \<Rightarrow> error + timestamp list" where
  "date_range date_min date_max =
     (case (date_min, date_max) of
        (Some a, Some b) \<Rightarrow>
          Inr (map (\<lambda>k. a + int k * 86400) [0..<nat ((b - a) div 86400 + 1)])
      | _ \<Rightarrow> Inl ValueError)"

text \<open>Lines 93 to 96: the \<open>date\<close> column of \<open>df_dates\<close>.\<close>

definition date_axis :: "'g climb list \<Rightarrow> error + timestamp list" where
  "date_axis self_climbs =
     (let date_min = series_min (dropna (map date_live_start self_climbs));
          date_max = series_max (dropna (map date_live_start self_climbs))
      in date_range date_min date_max)"

text \<open>\<open>Series.unique()\<close>: the distinct values in order of first appearance.\<close>

definition unique :: "'a list \<Rightarrow> 'a list" where
  "unique vs = rev (remdups (rev vs))"

text \<open>Line 98.\<close>

definition grade_axis :: "('g::linorder) climb list \<Rightarrow> 'g list" where
  "grade_axis self_climbs = sort (unique (map grade self_climbs))"

text \<open>
  Lines 93 to 104, the computation of the derived table from \<open>self.climbs\<close>. A frame
  without the column \<open>date_live_start\<close> raises \<open>AttributeError\<close> at line 93. The cross
  merge pairs every date with every grade, dates outermost; \<open>apply\<close> calls
  \<open>_routes_avail_per_day\<close> on every row, and the results become the column \<open>count\<close>.
\<close>

definition expand ::
  "('g::linorder) dataframe \<Rightarrow> error + ((timestamp \<times> 'g) \<times> nat) list" where
  "expand self_climbs =
     (case self_climbs of
        DatesGrades _ \<Rightarrow> Inl AttributeError
      | Climbs cl \<Rightarrow>
          (case date_axis cl of
             Inl e \<Rightarrow> Inl e
           | Inr df_dates \<Rightarrow>
               (let grades = grade_axis cl;
                    df = List.product df_dates grades;
                    result = map (routes_avail_per_day cl) df
                in Inr (zip df result))))"

text \<open>
  Lines 89 to 109. The method assigns to no attribute of \<open>self\<close>, so the object is
  returned as it was given.
\<close>

definition load_dates_grades ::
  "('g::linorder) PlotClimbs \<Rightarrow> 'g world
     \<Rightarrow> (error + 'g dataframe) \<times> 'g PlotClimbs \<times> 'g world" where
  "load_dates_grades self w =
     (case load_pickle DF_DATES_GRADES_PICKLE_PATH (Some (timedelta_days 10)) w of
        (Some df_pickle, w1) \<Rightarrow> (Inr df_pickle, self, w1)
      | (None, w1) \<Rightarrow>
          (let w2 = log_event (Compute DF_DATES_GRADES_PICKLE_PATH) w1 in
           case expand (climbs self) of
             Inl e \<Rightarrow> (Inl e, self, w2)
           | Inr df \<Rightarrow>
               (Inr (DatesGrades df), self,
                save_df_to_pickle (DatesGrades df) DF_DATES_GRADES_PICKLE_PATH w2)))"

section \<open>A run: \<open>PlotClimbs().main()\<close>\<close>

text \<open>Lines 20 to 23: the constructor loads the climbs table.\<close>

definition init :: "'g world \<Rightarrow> (error + 'g PlotClimbs) \<times> 'g world" where
  "init w =
     (case load_climbs w of
        (Inl e, w1) \<Rightarrow> (Inl e, w1)
      | (Inr df, w1) \<Rightarrow> (Inr \<lparr>climbs = df\<rparr>, w1))"

text \<open>
  Lines 26 to 34: \<open>main\<close> calls \<open>_climbs_grades\<close>, which loads the derived table. The
  figure made before that (line 32) and the drawing of the chart after it (lines 35 to
  50) are not modelled, nor are the log messages.
\<close>

definition climbs_grades ::
  "('g::linorder) PlotClimbs \<Rightarrow> 'g world
     \<Rightarrow> (error + 'g dataframe) \<times> 'g PlotClimbs \<times> 'g world" where
  "climbs_grades self w = load_dates_grades self w"

definition main ::
  "('g::linorder) PlotClimbs \<Rightarrow> 'g world
     \<Rightarrow> (error + 'g dataframe) \<times> 'g PlotClimbs \<times> 'g world" where
  "main self w = climbs_grades self w"

text \<open>Line 131: an exception in the constructor ends the run before \<open>main\<close>.\<close>

definition run :: "('g::linorder) world \<Rightarrow> (error + 'g dataframe) \<times> 'g world" where
  "run w =
     (case init w of
        (Inl e, w1) \<Rightarrow> (Inl e, w1)
      | (Inr self, w1) \<Rightarrow> (case main self w1 of (r, self', w2) \<Rightarrow> (r, w2)))"

section \<open>The expansion on a store of frames\<close>

text \<open>
  Lines 52 to 58 and 93 to 104 once more, with the data frames as objects in a store
  and \<open>self.climbs\<close> a reference to one of them, so that every frame the code builds and
  the one it assigns to are explicit. In pandas, indexing with a boolean mask,
  \<open>to_frame\<close> and \<open>merge\<close> build new frames, and \<open>df['count'] = result\<close> changes the
  frame \<open>df\<close> in place. On a frame that is not a climbs table the code ends in
  \<open>AttributeError\<close>.
\<close>

type_synonym ref = nat

text \<open>
  The objects of the store: a pickled or climbs frame, the frame \<open>df_dates\<close> of line 96
  (one column \<open>date\<close>), and the frame \<open>df\<close> of line 100 (columns \<open>date\<close> and \<open>grade\<close>)
  before its column \<open>count\<close> is assigned. A new object takes the next free reference.
\<close>

datatype 'g object =
    Frame "'g dataframe"
  | DatesFrame "timestamp list"
  | CrossFrame "(timestamp \<times> 'g) list"

record 'g store =
  objects :: "ref \<Rightarrow> 'g object"
  next_ref :: ref

definition alloc :: "'g object \<Rightarrow> 'g store \<Rightarrow> ref \<times> 'g store" where
  "alloc obj h =
     (next_ref h, h\<lparr>objects := (objects h)(next_ref h := obj), next_ref := Suc (next_ref h)\<rparr>)"

text \<open>\<open>df[mask]\<close> on a climbs frame: a new frame of the rows that pass; the frame
  \<open>df\<close> itself is only read.\<close>

definition mask_rows ::
  "('g climb \<Rightarrow> bool) \<Rightarrow> ref \<Rightarrow> 'g store \<Rightarrow> (error + ref) \<times> 'g store" where
  "mask_rows keep df h =
     (case objects h df of
        Frame (Climbs cl) \<Rightarrow>
          (case alloc (Frame (Climbs (filter keep cl))) h of (df', h') \<Rightarrow> (Inr df', h'))
      | _ \<Rightarrow> (Inl AttributeError, h))"

text \<open>\<open>df.id.count()\<close>.\<close>

definition count_ids :: "ref \<Rightarrow> 'g store \<Rightarrow> error + nat" where
  "count_ids df h =
     (case objects h df of
        Frame (Climbs cl) \<Rightarrow> Inr (series_count (map climb_id cl))
      | _ \<Rightarrow> Inl AttributeError)"

text \<open>Lines 52 to 58: three new frames, then the count.\<close>

definition routes_avail_per_day_st ::
  "ref \<Rightarrow> timestamp \<times> 'g \<Rightarrow> 'g store \<Rightarrow> (error + nat) \<times> 'g store" where
  "routes_avail_per_day_st self_climbs date_grade h =
     (case date_grade of (date, g) \<Rightarrow>
        (case mask_rows (\<lambda>c. grade c = g) self_climbs h of
           (Inl e, h1) \<Rightarrow> (Inl e, h1)
         | (Inr df_tmp, h1) \<Rightarrow>
             (case mask_rows (starts_by date) df_tmp h1 of
                (Inl e, h2) \<Rightarrow> (Inl e, h2)
              | (Inr df_tmp, h2) \<Rightarrow>
                  (case mask_rows (ends_from date) df_tmp h2 of
                     (Inl e, h3) \<Rightarrow> (Inl e, h3)
                   | (Inr df_tmp, h3) \<Rightarrow> (count_ids df_tmp h3, h3)))))"

text \<open>Line 102: \<open>apply\<close> calls the method on the rows in order; an exception ends it.\<close>

fun apply_rows ::
  "ref \<Rightarrow> (timestamp \<times> 'g) list \<Rightarrow> 'g store \<Rightarrow> (error + nat list) \<times> 'g store" where
  "apply_rows self_climbs [] h = (Inr [], h)"
| "apply_rows self_climbs (row # rows) h =
     (case routes_avail_per_day_st self_climbs row h of
        (Inl e, h1) \<Rightarrow> (Inl e, h1)
      | (Inr n, h1) \<Rightarrow>
          (case apply_rows self_climbs rows h1 of
             (Inl e, h2) \<Rightarrow> (Inl e, h2)
           | (Inr ns, h2) \<Rightarrow> (Inr (n # ns), h2)))"

text \<open>
  Lines 93 to 104: \<open>self.climbs\<close> is read for the two axes, \<open>df_dates\<close> and \<open>df\<close> are new
  frames, and line 104 writes the column \<open>count\<close> into the object \<open>df\<close>, whose reference
  is returned.
\<close>

definition expand_st ::
  "ref \<Rightarrow> ('g::linorder) store \<Rightarrow> (error + ref) \<times> 'g store" where
  "expand_st self_climbs h =
     (case objects h self_climbs of
        Frame (Climbs cl) \<Rightarrow>
          (case date_axis cl of
             Inl e \<Rightarrow> (Inl e, h)
           | Inr dates \<Rightarrow>
               (case alloc (DatesFrame dates) h of (df_dates, h1) \<Rightarrow>
                  (let grades = grade_axis cl;
                       rows = List.product dates grades
                   in case alloc (CrossFrame rows) h1 of (df, h2) \<Rightarrow>
                        (case apply_rows self_climbs rows h2 of
                           (Inl e, h3) \<Rightarrow> (Inl e, h3)
                         | (Inr result, h3) \<Rightarrow>
                             (Inr df,
                              h3\<lparr>objects :=
                                   (objects h3)(df := Frame (DatesGrades (zip rows result)))\<rparr>)))))
      | _ \<Rightarrow> (Inl AttributeError, h))"

section \<open>The notions of the specification\<close>

text \<open>
  The interval of a climb contains a date when \<open>live_start \<le> date \<le> live_end\<close>; a
  climb matches a cell \<open>(date, grade)\<close> when its grade is the cell's and its interval
  contains the cell's date.
\<close>

definition in_interval :: "timestamp \<Rightarrow> 'g climb \<Rightarrow> bool" where
  "in_interval date c =
     (case (date_live_start c, date_live_end c) of
        (Some s, Some e) \<Rightarrow> s \<le> date \<and> date \<le> e
      | _ \<Rightarrow> False)"

definition matches_cell :: "timestamp \<times> 'g \<Rightarrow> 'g climb \<Rightarrow> bool" where
  "matches_cell date_grade c =
     (grade c = snd date_grade \<and> in_interval (fst date_grade) c)"

definition matching_rows :: "'g climb list \<Rightarrow> timestamp \<times> 'g \<Rightarrow> 'g climb list" where
  "matching_rows cl date_grade = filter (matches_cell date_grade) cl"

definition has_id :: "'g climb \<Rightarrow> bool" where
  "has_id c = (climb_id c \<noteq> None)"

text \<open>The non-null values of the column \<open>date_live_start\<close>.\<close>

definition live_starts :: "'g climb list \<Rightarrow> timestamp set" where
  "live_starts cl = set (dropna (map date_live_start cl))"

text \<open>The calendar day of a timestamp (days since the epoch), and the number of
  calendar days from the day of one timestamp to the day of another, both included.\<close>

definition calendar_day :: "timestamp \<Rightarrow> int" where
  "calendar_day t = t div 86400"

definition calendar_days_inclusive :: "timestamp \<Rightarrow> timestamp \<Rightarrow> nat" where
  "calendar_days_inclusive a b = nat (calendar_day b - calendar_day a + 1)"

text \<open>
  What the specification asks of the climbs table built from the response: the dates
  parsed, a null \<open>live_end\<close> replaced by the time of the load, and the records with a
  null \<open>live_start\<close> dropped.
\<close>

definition parsed_date :: "json_date \<Rightarrow> timestamp option" where
  "parsed_date v = (case v of JDate t \<Rightarrow> Some t | _ \<Rightarrow> None)"

definition normalised_row :: "timestamp \<Rightarrow> 'g raw_climb \<Rightarrow> 'g climb" where
  "normalised_row today r =
     \<lparr>climb_id = raw_id r, grade = raw_grade r,
      date_live_start = parsed_date (raw_date_live_start r),
      date_live_end =
        (case parsed_date (raw_date_live_end r) of None \<Rightarrow> Some today | Some t \<Rightarrow> Some t)\<rparr>"

definition has_raw_live_start :: "'g raw_climb \<Rightarrow> bool" where
  "has_raw_live_start r = (raw_date_live_start r \<noteq> JNull)"

text \<open>
  The cache loader of the specification. An entry is fresh when it exists and either
  no \<open>max_age\<close> is given or its age, the clock minus the modification time of the file,
  is below \<open>max_age\<close>. The fetch function of the raw cache is the request followed by
  the casts; the one of the derived cache is the expansion of \<open>self.climbs\<close>.
\<close>

definition fresh :: "path \<Rightarrow> timedelta option \<Rightarrow> 'g world \<Rightarrow> bool" where
  "fresh cache_key max_age w =
     (case files w cache_key of
        None \<Rightarrow> False
      | Some (mtime, content) \<Rightarrow>
          (case max_age of None \<Rightarrow> True | Some limit \<Rightarrow> clock w - mtime < limit))"

definition cached :: "path \<Rightarrow> 'g world \<Rightarrow> 'g dataframe option" where
  "cached cache_key w = map_option snd (files w cache_key)"

definition fetch_climbs :: "'g world \<Rightarrow> error + 'g dataframe" where
  "fetch_climbs w =
     (case response w of
        Inl e \<Rightarrow> Inl e
      | Inr records \<Rightarrow>
          (case normalise (clock w) records of Inl e \<Rightarrow> Inl e | Inr df \<Rightarrow> Inr (Climbs df)))"

definition fetch_dates_grades :: "('g::linorder) PlotClimbs \<Rightarrow> error + 'g dataframe" where
  "fetch_dates_grades self =
     (case expand (climbs self) of Inl e \<Rightarrow> Inl e | Inr df \<Rightarrow> Inr (DatesGrades df))"

text \<open>The steps a call added to the trace, and how many of them are reads of a
  cache file, writes of a cache file, requests to the remote source (the fetch of the
  raw cache) and computations of the derived table (the fetch of the derived cache).\<close>

definition new_events :: "'g world \<Rightarrow> 'g world \<Rightarrow> event list" where
  "new_events w w' = drop (length (trace w)) (trace w')"

fun is_read :: "event \<Rightarrow> bool" where
  "is_read (ReadPickle f) = True"
| "is_read _ = False"

fun is_write :: "event \<Rightarrow> bool" where
  "is_write (ToPickle f) = True"
| "is_write _ = False"

fun is_fetch :: "event \<Rightarrow> bool" where
  "is_fetch (HttpGet url) = True"
| "is_fetch _ = False"

fun is_expansion :: "event \<Rightarrow> bool" where
  "is_expansion (Compute f) = True"
| "is_expansion _ = False"

definition reads :: "'g world \<Rightarrow> 'g world \<Rightarrow> nat" where
  "reads w w' = length (filter is_read (new_events w w'))"

definition writes :: "'g world \<Rightarrow> 'g world \<Rightarrow> nat" where
  "writes w w' = length (filter is_write (new_events w w'))"

definition fetches :: "'g world \<Rightarrow> 'g world \<Rightarrow> nat" where
  "fetches w w' = length (filter is_fetch (new_events w w'))"

definition expansions :: "'g world \<Rightarrow> 'g world \<Rightarrow> nat" where
  "expansions w w' = length (filter is_expansion (new_events w w'))"

text \<open>The file an effect is about.\<close>

fun event_path :: "event \<Rightarrow> path option" where
  "event_path (Exists f) = Some f"
| "event_path (Stat f) = Some f"
| "event_path (ReadPickle f) = Some f"
| "event_path (ToPickle f) = Some f"
| "event_path (HttpGet url) = None"
| "event_path (Compute f) = Some f"

text \<open>The store after a call agrees with the store before it on every object that
  existed before, and no reference is given up.\<close>

definition unchanged_below :: "ref \<Rightarrow> 'g store \<Rightarrow> 'g store \<Rightarrow> bool" where
  "unchanged_below n h h' = (n \<le> next_ref h' \<and> (\<forall>a<n. objects h' a = objects h a))"

text \<open>Example inputs: a climbs table, the response it comes from, its derived table,
  and four environments (no cache file; both cache files fresh; no cache file and a
  request that fails; only the derived cache file).\<close>

definition example_climbs :: "int climb list" where
  "example_climbs =
     [\<lparr>climb_id = Some 1, grade = 5, date_live_start = Some 1577836800,
        date_live_end = Some 1600000000\<rparr>]"

definition example_response :: "int raw_climb list" where
  "example_response =
     [\<lparr>raw_id = Some 1, raw_grade = 5, raw_date_live_start = JDate 1577836800,
        raw_date_live_end = JNull\<rparr>]"

definition example_cells :: "((timestamp \<times> int) \<times> nat) list" where
  "example_cells = [((1577836800, 5), 1)]"

definition world_no_cache :: "int world" where
  "world_no_cache =
     \<lparr>files = Map.empty, clock = 1600000000, response = Inr example_response, trace = []\<rparr>"

definition world_both_cached :: "int world" where
  "world_both_cached =
     \<lparr>files = [DF_CLIMBS_PICKLE_PATH \<mapsto> (1599990000, Climbs example_climbs),
                DF_DATES_GRADES_PICKLE_PATH \<mapsto> (1599990000, DatesGrades example_cells)],
      clock = 1600000000, response = Inl RequestError, trace = []\<rparr>"

definition world_request_fails :: "int world" where
  "world_request_fails =
     \<lparr>files = Map.empty, clock = 1600000000, response = Inl RequestError, trace = []\<rparr>"

definition world_derived_cached :: "int world" where
  "world_derived_cached =
     \<lparr>files = [DF_DATES_GRADES_PICKLE_PATH \<mapsto> (1599990000, DatesGrades example_cells)],
      clock = 1600000000, response = Inr example_response, trace = []\<rparr>"

text \<open>A store whose only object is the example climbs table.\<close>

definition example_store :: "int store" where
  "example_store =
     \<lparr>objects = (\<lambda>a. DatesFrame [])(0 := Frame (Climbs example_climbs)), next_ref = 1\<rparr>"

section \<open>Counting the climbs of a cell\<close>

lemma in_interval_iff: "in_interval d c = (starts_by d c \<and> ends_from d c)"
  by (auto simp: in_interval_def starts_by_def ends_from_def split: option.splits)

lemma routes_avail_matching:
  "routes_avail_per_day cl dg = series_count (map climb_id (matching_rows cl dg))"
proof -
  obtain d g where dg: "dg = (d, g)" by (cases dg)
  have "filter (ends_from d) (filter (starts_by d) (filter (\<lambda>c. grade c = g) cl))
        = filter (matches_cell (d, g)) cl"
    by (induction cl) (auto simp: matches_cell_def in_interval_iff)
  then show ?thesis
    by (simp add: routes_avail_per_day_def matching_rows_def dg)
qed

lemma series_count_ids: "series_count (map climb_id cl) = length (filter has_id cl)"
  by (induction cl) (simp_all add: series_count_def has_id_def)

lemma routes_avail_append:
  "routes_avail_per_day (xs @ ys) dg = routes_avail_per_day xs dg + routes_avail_per_day ys dg"
  by (simp add: routes_avail_matching matching_rows_def series_count_def)

lemma routes_avail_Cons:
  "routes_avail_per_day (c # cl) dg =
     (if matches_cell dg c \<and> has_id c then 1 else 0) + routes_avail_per_day cl dg"
  by (simp add: routes_avail_matching matching_rows_def series_count_def has_id_def)

lemma zip_map_same: "zip xs (map f xs) = map (\<lambda>x. (x, f x)) xs"
  by (induction xs) simp_all

lemma expand_Climbs:
  "expand (Climbs cl) =
     (case date_axis cl of
        Inl e \<Rightarrow> Inl e
      | Inr ds \<Rightarrow>
          Inr (map (\<lambda>dg. (dg, routes_avail_per_day cl dg)) (List.product ds (grade_axis cl))))"
  by (simp add: expand_def Let_def zip_map_same split: sum.splits)



text \<open>
  C3, as the code has it. A row with a non-null \<open>id\<close> whose interval contains the date,
  either end included, adds exactly 1 to the cell of that date and of its grade; so
  does a row with \<open>live_start = live_end = date\<close>. (A row with a null \<open>id\<close> adds
  nothing, see the counterexample.)
\<close>

theorem boundary_inclusive:
  assumes "climb_id r \<noteq> None"
    and "date_live_start r = Some s" and "date_live_end r = Some e"
    and "s \<le> d" and "d \<le> e"
  shows "routes_avail_per_day (xs @ r # ys) (d, grade r)
         = routes_avail_per_day (xs @ ys) (d, grade r) + 1"
  using assms
  by (simp add: routes_avail_append routes_avail_Cons has_id_def matches_cell_def
      in_interval_def)

theorem boundary_inclusive_witness:
  "routes_avail_per_day
     [\<lparr>climb_id = Some 7, grade = 5::int, date_live_start = Some 1577836800,
        date_live_end = Some 1577836800\<rparr>] (1577836800, 5) = 1"
proof -
  let ?r = "\<lparr>climb_id = Some 7, grade = 5::int, date_live_start = Some 1577836800,
              date_live_end = Some 1577836800\<rparr>"
  have h1: "climb_id ?r \<noteq> None" by simp
  have h2: "date_live_start ?r = Some 1577836800" by simp
  have h3: "date_live_end ?r = Some 1577836800" by simp
  have h4: "(1577836800::int) \<le> 1577836800" by simp
  have "routes_avail_per_day [] (1577836800, 5::int) = 0"
    by (simp add: routes_avail_per_day_def series_count_def)
  with boundary_inclusive [OF h1 h2 h3 h4 h4, of "[]" "[]"]
  show ?thesis by simp
qed

text \<open>
  C3 as stated fails: in the table of two rows with \<open>live_start = live_end\<close> =
  2020-01-01, the date axis is that date, and the second row, whose \<open>id\<close> is null, adds
  0 to the cell of its grade: the count is the one of the table without it.
\<close>

theorem boundary_null_id_counterexample:
  "date_axis
     [\<lparr>climb_id = Some 7, grade = 5::int, date_live_start = Some 1577836800,
        date_live_end = Some 1577836800\<rparr>,
      \<lparr>climb_id = None, grade = 5, date_live_start = Some 1577836800,
        date_live_end = Some 1577836800\<rparr>] = Inr [1577836800]
   \<and> routes_avail_per_day
     [\<lparr>climb_id = Some 7, grade = 5::int, date_live_start = Some 1577836800,
        date_live_end = Some 1577836800\<rparr>,
      \<lparr>climb_id = None, grade = 5, date_live_start = Some 1577836800,
        date_live_end = Some 1577836800\<rparr>] (1577836800, 5)
     = routes_avail_per_day
     [\<lparr>climb_id = Some 7, grade = 5::int, date_live_start = Some 1577836800,
        date_live_end = Some 1577836800\<rparr>] (1577836800, 5)"
  by (simp add: date_axis_def date_range_def routes_avail_per_day_def series_count_def
      starts_by_def ends_from_def)

section \<open>The date axis, the grade axis and the rows of the derived table\<close>

lemma series_min_Min: "vs \<noteq> [] \<Longrightarrow> series_min vs = Some (Min (set vs))"
  by (cases vs) (simp_all add: Min.set_eq_fold [symmetric])

lemma series_max_Max: "vs \<noteq> [] \<Longrightarrow> series_max vs = Some (Max (set vs))"
  by (cases vs) (simp_all add: Max.set_eq_fold [symmetric])

lemma set_dropna: "set (dropna vs) = {v. Some v \<in> set vs}"
  by (induction vs rule: dropna.induct) auto

lemma live_starts_nonempty:
  "(\<exists>c\<in>set cl. date_live_start c \<noteq> None) \<Longrightarrow> dropna (map date_live_start cl) \<noteq> []"
proof -
  assume "\<exists>c\<in>set cl. date_live_start c \<noteq> None"
  then obtain c s where "c \<in> set cl" "date_live_start c = Some s" by auto
  then have "s \<in> set (dropna (map date_live_start cl))"
    by (force simp: set_dropna)
  then show ?thesis by auto
qed

lemma date_axis_eq:
  assumes "dropna (map date_live_start cl) \<noteq> []"
  shows "date_axis cl =
           Inr (map (\<lambda>k. Min (live_starts cl) + int k * 86400)
                  [0..<nat ((Max (live_starts cl) - Min (live_starts cl)) div 86400 + 1)])"
  using assms
  by (simp add: date_axis_def date_range_def live_starts_def series_min_Min series_max_Max)

lemma distinct_day_steps: "distinct (map (\<lambda>k. (a::int) + int k * 86400) [0..<n])"
  by (simp add: distinct_map inj_on_def)

lemma length_grade_axis: "length (grade_axis cl) = card (grade ` set cl)"
  by (simp add: grade_axis_def unique_def length_remdups_card_conv)

lemma set_grade_axis: "set (grade_axis cl) = grade ` set cl"
  by (simp add: grade_axis_def unique_def)

lemma distinct_grade_axis: "distinct (grade_axis cl)"
  by (simp add: grade_axis_def unique_def)

lemma live_starts_bounds:
  assumes "dropna (map date_live_start cl) \<noteq> []"
  shows "Min (live_starts cl) \<le> Max (live_starts cl)"
proof -
  have "finite (live_starts cl)" and "live_starts cl \<noteq> {}"
    using assms by (simp_all add: live_starts_def)
  then show ?thesis by simp
qed

lemma day_steps_bounds:
  fixes lo hi :: int
  assumes "lo \<le> hi"
  shows "nat ((hi - lo) div 86400 + 1) = Suc (nat ((hi - lo) div 86400))"
    and "k \<le> nat ((hi - lo) div 86400) \<Longrightarrow> lo + int k * 86400 \<le> hi"
    and "hi < lo + int (Suc (nat ((hi - lo) div 86400))) * 86400"
proof -
  define q where "q = (hi - lo) div 86400"
  define r where "r = (hi - lo) mod 86400"
  have eq: "hi - lo = q * 86400 + r" by (simp add: q_def r_def)
  have r: "0 \<le> r" "r < 86400" by (simp_all add: r_def)
  from assms have nn: "0 \<le> q" by (simp add: q_def)
  from nn have "nat (q + 1) = Suc (nat q)" by linarith
  then show "nat ((hi - lo) div 86400 + 1) = Suc (nat ((hi - lo) div 86400))"
    by (simp only: q_def)
  have "lo + int k * 86400 \<le> hi" if "k \<le> nat q"
  proof -
    from that nn have "int k \<le> q" by linarith
    with eq r show ?thesis by linarith
  qed
  then show "k \<le> nat ((hi - lo) div 86400) \<Longrightarrow> lo + int k * 86400 \<le> hi"
    by (simp only: q_def)
  from nn have "int (Suc (nat q)) = q + 1" by simp
  moreover from eq r have "hi < lo + (q * 86400 + 86400)" by linarith
  ultimately have "hi < lo + int (Suc (nat q)) * 86400"
    by (simp only: distrib_right mult_1)
  then show "hi < lo + int (Suc (nat ((hi - lo) div 86400))) * 86400"
    by (simp only: q_def)
qed

lemmas eval_defs = expand_def date_axis_def date_range_def grade_axis_def unique_def
  routes_avail_per_day_def series_count_def starts_by_def ends_from_def


text \<open>
  C1, as the code has it. For every cell \<open>((date, grade), count)\<close> of the derived table,
  \<open>count\<close> is the number of rows of the climbs table with a non-null \<open>id\<close> whose grade
  is the cell's and whose interval contains the cell's date, both ends included.
\<close>

theorem cell_count_nonnull_ids:
  assumes "expand (Climbs cl) = Inr cells" and "((d, g), n) \<in> set cells"
  shows "n = length (filter has_id (matching_rows cl (d, g)))"
  using assms
  by (auto simp: expand_Climbs routes_avail_matching series_count_ids split: sum.splits)

theorem cell_count_nonnull_ids_witness: "expand (Climbs [\<lparr>climb_id = Some 1, grade = 5::int, date_live_start = Some 1577836800,
        date_live_end = Some 1578009600\<rparr>,
        \<lparr>climb_id = None, grade = 5, date_live_start = Some 1577836800,
        date_live_end = Some 1578009600\<rparr>]) = Inr [((1577836800, 5), 1)]
  \<and> (1::nat) = length (filter has_id (matching_rows [\<lparr>climb_id = Some 1, grade = 5::int, date_live_start = Some 1577836800,
        date_live_end = Some 1578009600\<rparr>,
        \<lparr>climb_id = None, grade = 5, date_live_start = Some 1577836800,
        date_live_end = Some 1578009600\<rparr>] (1577836800, 5)))"
proof -
  let ?cl = "[\<lparr>climb_id = Some 1, grade = 5::int, date_live_start = Some 1577836800,
        date_live_end = Some 1578009600\<rparr>,
        \<lparr>climb_id = None, grade = 5, date_live_start = Some 1577836800,
        date_live_end = Some 1578009600\<rparr>]"
  have h1: "expand (Climbs ?cl) = Inr [((1577836800, 5), 1)]"
    by (simp add: eval_defs)
  have h2: "((1577836800, 5), 1) \<in> set [((1577836800::int, 5::int), 1::nat)]" by simp
  from cell_count_nonnull_ids [OF h1 h2] h1 show ?thesis by simp
qed


text \<open>
  C1 as stated fails: the table of one row with grade 5, a null \<open>id\<close> and the interval
  2020-01-01 to 2020-01-03 has the single cell (2020-01-01, 5), whose count is 0, and
  one row of the table matches that cell.
\<close>

theorem cell_count_rows_counterexample: "expand (Climbs [\<lparr>climb_id = None, grade = 5::int, date_live_start = Some 1577836800,
        date_live_end = Some 1578009600\<rparr>]) = Inr [((1577836800, 5), 0)]
  \<and> length (matching_rows [\<lparr>climb_id = None, grade = 5::int, date_live_start = Some 1577836800,
        date_live_end = Some 1578009600\<rparr>] (1577836800, 5)) = 1"
  by (simp add: eval_defs matching_rows_def matches_cell_def in_interval_def)


text \<open>
  C2, as the code has it. For a non-empty climbs table (every \<open>live_start\<close> non-null) the
  derived table has exactly one row for each pair of a date of the axis and a grade of
  the table, and the number of its rows is the number of 24-hour steps that fit
  between the least and the greatest \<open>live_start\<close>, plus one, times the number of
  distinct grades.
\<close>

theorem expansion_row_count:
  assumes "cl \<noteq> []" and "\<forall>c\<in>set cl. date_live_start c \<noteq> None"
  shows "\<exists>cells ds. expand (Climbs cl) = Inr cells \<and> date_axis cl = Inr ds
           \<and> distinct (map fst cells)
           \<and> set (map fst cells) = set ds \<times> grade ` set cl
           \<and> length cells
               = nat ((Max (live_starts cl) - Min (live_starts cl)) div 86400 + 1)
                 * card (grade ` set cl)"
proof -
  from assms have "\<exists>c\<in>set cl. date_live_start c \<noteq> None"
    by (cases cl) auto
  then have ne: "dropna (map date_live_start cl) \<noteq> []"
    by (rule live_starts_nonempty)
  let ?ds = "map (\<lambda>k. Min (live_starts cl) + int k * 86400)
                  [0..<nat ((Max (live_starts cl) - Min (live_starts cl)) div 86400 + 1)]"
  let ?cells = "map (\<lambda>dg. (dg, routes_avail_per_day cl dg)) (List.product ?ds (grade_axis cl))"
  have ax: "date_axis cl = Inr ?ds" using ne by (rule date_axis_eq)
  have ex: "expand (Climbs cl) = Inr ?cells" by (simp add: expand_Climbs ax)
  have keys: "map fst ?cells = List.product ?ds (grade_axis cl)"
    by (simp add: comp_def)
  have d: "distinct (map fst ?cells)"
    unfolding keys by (intro distinct_product distinct_day_steps distinct_grade_axis)
  have s: "set (map fst ?cells) = set ?ds \<times> grade ` set cl"
    unfolding keys by (simp add: set_grade_axis)
  have l: "length ?cells = nat ((Max (live_starts cl) - Min (live_starts cl)) div 86400 + 1)
                 * card (grade ` set cl)"
    by (simp add: length_grade_axis)
  from ex ax d s l show ?thesis by blast
qed

theorem expansion_row_count_witness: "\<exists>cells. expand (Climbs
   [\<lparr>climb_id = Some 1, grade = 5::int, date_live_start = Some 1577836800, date_live_end = Some 1578009600\<rparr>,
    \<lparr>climb_id = Some 2, grade = 6, date_live_start = Some 1578009600, date_live_end = Some 1578009600\<rparr>]) = Inr cells
    \<and> length cells = 6"
proof -
  let ?cl = "[\<lparr>climb_id = Some 1, grade = 5::int, date_live_start = Some 1577836800, date_live_end = Some 1578009600\<rparr>,
    \<lparr>climb_id = Some 2, grade = 6, date_live_start = Some 1578009600, date_live_end = Some 1578009600\<rparr>]"
  have h1: "?cl \<noteq> []" by simp
  have h2: "\<forall>c\<in>set ?cl. date_live_start c \<noteq> None" by simp
  have ls: "live_starts ?cl = {1577836800, 1578009600}" by (simp add: live_starts_def)
  have c: "card (grade ` set ?cl) = 2" by simp
  have n: "nat ((Max (live_starts ?cl) - Min (live_starts ?cl)) div 86400 + 1) = 3"
    unfolding ls by simp
  from expansion_row_count [OF h1 h2] show ?thesis unfolding n c by auto
qed


text \<open>
  C2 as stated fails: with \<open>live_start\<close> 2020-01-01 23:00 and 2020-01-02 01:00 and one
  grade, the derived table has one row, while the calendar days from the least to the
  greatest \<open>live_start\<close> are two.
\<close>

theorem expansion_calendar_days_counterexample: "expand (Climbs
   [\<lparr>climb_id = Some 1, grade = 5::int, date_live_start = Some 1577919600, date_live_end = Some 1578009600\<rparr>,
    \<lparr>climb_id = Some 2, grade = 5, date_live_start = Some 1577926800, date_live_end = Some 1578009600\<rparr>])
   = Inr [((1577919600, 5), 1)]
  \<and> calendar_days_inclusive 1577919600 1577926800 * card (grade ` set
   [\<lparr>climb_id = Some 1, grade = 5::int, date_live_start = Some 1577919600, date_live_end = Some 1578009600\<rparr>,
    \<lparr>climb_id = Some 2, grade = 5, date_live_start = Some 1577926800, date_live_end = Some 1578009600\<rparr>]) = 2"
  by (simp add: eval_defs calendar_days_inclusive_def calendar_day_def)


text \<open>
  C7, as the code has it. For a non-empty climbs table (every \<open>live_start\<close> non-null) the
  date axis is the least \<open>live_start\<close> and then one value every 24 hours, without a
  gap; it depends on the least and the greatest \<open>live_start\<close> only; no value is after
  the greatest \<open>live_start\<close>, whatever the \<open>live_end\<close> values are, and one more step would
  be after it.
\<close>

theorem date_axis_day_steps:
  assumes "cl \<noteq> []" and "\<forall>c\<in>set cl. date_live_start c \<noteq> None"
  shows "\<exists>ds. date_axis cl = Inr ds
           \<and> ds = map (\<lambda>k. Min (live_starts cl) + int k * 86400)
                    [0..<Suc (nat ((Max (live_starts cl) - Min (live_starts cl)) div 86400))]
           \<and> (\<forall>d\<in>set ds. Min (live_starts cl) \<le> d \<and> d \<le> Max (live_starts cl))
           \<and> Max (live_starts cl)
               < Min (live_starts cl)
                 + int (Suc (nat ((Max (live_starts cl) - Min (live_starts cl)) div 86400))) * 86400"
proof -
  from assms have "\<exists>c\<in>set cl. date_live_start c \<noteq> None"
    by (cases cl) auto
  then have ne: "dropna (map date_live_start cl) \<noteq> []"
    by (rule live_starts_nonempty)
  define lo where "lo = Min (live_starts cl)"
  define hi where "hi = Max (live_starts cl)"
  have le: "lo \<le> hi" unfolding lo_def hi_def using ne by (rule live_starts_bounds)
  have ax: "date_axis cl = Inr (map (\<lambda>k. lo + int k * 86400) [0..<Suc (nat ((hi - lo) div 86400))])"
    using date_axis_eq [OF ne] day_steps_bounds(1) [OF le] by (simp add: lo_def hi_def)
  have b: "\<forall>d\<in>set (map (\<lambda>k. lo + int k * 86400) [0..<Suc (nat ((hi - lo) div 86400))]). lo \<le> d \<and> d \<le> hi"
    using day_steps_bounds(2) [OF le] by auto
  have n: "hi < lo + int (Suc (nat ((hi - lo) div 86400))) * 86400"
    using le by (rule day_steps_bounds(3))
  from ax b n show ?thesis unfolding lo_def hi_def by blast
qed

theorem date_axis_day_steps_witness: "date_axis
   [\<lparr>climb_id = Some 1, grade = 5::int, date_live_start = Some 1577836800, date_live_end = Some 1580000000\<rparr>,
    \<lparr>climb_id = Some 2, grade = 6, date_live_start = Some 1578009600, date_live_end = Some 1578009600\<rparr>]
    = Inr [1577836800, 1577923200, 1578009600]"
proof -
  let ?cl = "[\<lparr>climb_id = Some 1, grade = 5::int, date_live_start = Some 1577836800, date_live_end = Some 1580000000\<rparr>,
    \<lparr>climb_id = Some 2, grade = 6, date_live_start = Some 1578009600, date_live_end = Some 1578009600\<rparr>]"
  have h1: "?cl \<noteq> []" by simp
  have h2: "\<forall>c\<in>set ?cl. date_live_start c \<noteq> None" by simp
  have ls: "live_starts ?cl = {1577836800, 1578009600}" by (simp add: live_starts_def)
  have n: "Suc (nat ((Max (live_starts ?cl) - Min (live_starts ?cl)) div 86400)) = 3"
    unfolding ls by simp
  have u: "[0..<3] = [0, 1, 2]" by (simp add: upt_rec)
  from date_axis_day_steps [OF h1 h2] show ?thesis unfolding n unfolding ls by (auto simp: u)
qed

text \<open>
  C7 as stated fails: with \<open>live_start\<close> 2020-01-01 23:00 and 2020-01-02 01:00 the axis
  is the single value 2020-01-01 23:00, so the calendar day of the greatest
  \<open>live_start\<close> has no date on the axis.
\<close>

theorem date_axis_calendar_day_counterexample: "date_axis
   [\<lparr>climb_id = Some 1, grade = 5::int, date_live_start = Some 1577919600, date_live_end = Some 1578009600\<rparr>,
    \<lparr>climb_id = Some 2, grade = 5, date_live_start = Some 1577926800, date_live_end = Some 1578009600\<rparr>]
   = Inr [1577919600]
  \<and> calendar_day 1577926800 \<notin> set (map calendar_day [1577919600])"
  by (simp add: eval_defs calendar_days_inclusive_def calendar_day_def)

section \<open>The climbs table after the casts\<close>

lemma astype_column_Inr:
  "astype_column vs = Inr ts \<Longrightarrow> ts = map parsed_date vs \<and> JMalformed \<notin> set vs"
  by (induction vs arbitrary: ts)
     (auto simp: astype_datetime64_def parsed_date_def split: json_date.splits sum.splits)

lemma typed_rows_eq:
  "map typed_row (zip df (zip (map f df) (map g df)))
     = map (\<lambda>r. typed_row (r, f r, g r)) df"
  by (induction df) simp_all

lemma normalise_Inr:
  assumes "normalise today raw = Inr out"
  shows "out = map (normalised_row today) (filter has_raw_live_start raw)"
proof -
  from assms obtain starts ends where
    s: "astype_column (map raw_date_live_start raw) = Inr starts" and
    e: "astype_column (map raw_date_live_end raw) = Inr ends" and
    out: "out = filter has_live_start (map (fill_live_end today)
                  (map typed_row (zip raw (zip starts ends))))"
    by (auto simp: normalise_def split: if_splits sum.splits)
  from astype_column_Inr [OF s] have s': "starts = map (\<lambda>r. parsed_date (raw_date_live_start r)) raw"
    and ms: "JMalformed \<notin> raw_date_live_start ` set raw" by (simp_all add: comp_def)
  from astype_column_Inr [OF e] have e': "ends = map (\<lambda>r. parsed_date (raw_date_live_end r)) raw"
    by (simp add: comp_def)
  have rows: "map typed_row (zip raw (zip starts ends))
     = map (\<lambda>r. typed_row (r, parsed_date (raw_date_live_start r), parsed_date (raw_date_live_end r))) raw"
    unfolding s' e' by (rule typed_rows_eq)
  have "filter has_live_start (map (fill_live_end today)
          (map (\<lambda>r. typed_row (r, parsed_date (raw_date_live_start r), parsed_date (raw_date_live_end r))) xs))
        = map (normalised_row today) (filter has_raw_live_start xs)"
    if "JMalformed \<notin> raw_date_live_start ` set xs" for xs :: "'a raw_climb list"
    using that
    by (induction xs)
       (auto simp: has_live_start_def fill_live_end_def typed_row_def normalised_row_def
          has_raw_live_start_def parsed_date_def split: json_date.splits option.splits)
  from this [OF ms] show ?thesis unfolding out rows .
qed

text \<open>
  C4. Whenever the response is turned into a climbs table, every row of the table has a
  non-null \<open>live_start\<close> and a non-null \<open>live_end\<close>; the table is made of the records
  with a non-null \<open>live_start\<close>, in their order, so every record with a null
  \<open>live_start\<close> is dropped; and a kept record with a null \<open>live_end\<close> has \<open>live_end\<close>
  set to the time of the load.
\<close>

theorem normaliser_postcondition:
  assumes "normalise today raw = Inr out"
  shows "(\<forall>c\<in>set out. date_live_start c \<noteq> None \<and> date_live_end c \<noteq> None)
       \<and> out = map (normalised_row today) (filter has_raw_live_start raw)
       \<and> (\<forall>r\<in>set raw. raw_date_live_end r = JNull \<and> raw_date_live_start r \<noteq> JNull
             \<longrightarrow> normalised_row today r \<in> set out
                 \<and> date_live_end (normalised_row today r) = Some today)
       \<and> length out = length (filter has_raw_live_start raw)"
proof -
  have out: "out = map (normalised_row today) (filter has_raw_live_start raw)"
    using assms by (rule normalise_Inr)
  from assms obtain starts where
    s: "astype_column (map raw_date_live_start raw) = Inr starts"
    by (auto simp: normalise_def split: if_splits sum.splits)
  from astype_column_Inr [OF s] have ms: "JMalformed \<notin> raw_date_live_start ` set raw" by simp
  have a: "\<forall>c\<in>set out. date_live_start c \<noteq> None \<and> date_live_end c \<noteq> None"
  proof
    fix c assume "c \<in> set out"
    then obtain r where r: "r \<in> set raw" "has_raw_live_start r" "c = normalised_row today r"
      unfolding out by auto
    from r(1) ms have "raw_date_live_start r \<noteq> JMalformed" by force
    with r(2,3) show "date_live_start c \<noteq> None \<and> date_live_end c \<noteq> None"
      by (auto simp: normalised_row_def has_raw_live_start_def parsed_date_def
          split: json_date.splits option.splits)
  qed
  have b: "\<forall>r\<in>set raw. raw_date_live_end r = JNull \<and> raw_date_live_start r \<noteq> JNull
             \<longrightarrow> normalised_row today r \<in> set out
                 \<and> date_live_end (normalised_row today r) = Some today"
    unfolding out by (auto simp: has_raw_live_start_def normalised_row_def parsed_date_def)
  from a out b show ?thesis by simp
qed

theorem normaliser_postcondition_witness:
  "normalise 1600000000
     [\<lparr>raw_id = Some 1, raw_grade = 5::int, raw_date_live_start = JDate 1577836800,
        raw_date_live_end = JNull\<rparr>,
      \<lparr>raw_id = Some 2, raw_grade = 6, raw_date_live_start = JNull,
        raw_date_live_end = JDate 1578009600\<rparr>]
   = Inr [\<lparr>climb_id = Some 1, grade = 5, date_live_start = Some 1577836800,
            date_live_end = Some 1600000000\<rparr>]"
proof -
  let ?raw = "[\<lparr>raw_id = Some 1, raw_grade = 5::int, raw_date_live_start = JDate 1577836800,
        raw_date_live_end = JNull\<rparr>,
      \<lparr>raw_id = Some 2, raw_grade = 6, raw_date_live_start = JNull,
        raw_date_live_end = JDate 1578009600\<rparr>]"
  obtain out where h: "normalise 1600000000 ?raw = Inr out"
    by (simp add: normalise_def astype_datetime64_def)
  from normaliser_postcondition [OF h] have "out = map (normalised_row 1600000000) (filter has_raw_live_start ?raw)"
    by blast
  then have "out = [\<lparr>climb_id = Some 1, grade = 5, date_live_start = Some 1577836800,
            date_live_end = Some 1600000000\<rparr>]"
    by (simp add: normalised_row_def has_raw_live_start_def parsed_date_def)
  with h show ?thesis by simp
qed

section \<open>The cache loader\<close>

lemma load_pickle_hit:
  assumes "files w f = Some (mtime, content)"
    and "case age_max of None \<Rightarrow> True | Some limit \<Rightarrow> clock w - mtime < limit"
  shows "load_pickle f age_max w
         = (Some content, w\<lparr>trace := trace w @ [Exists f, Stat f, ReadPickle f]\<rparr>)"
  using assms by (simp add: load_pickle_def log_event_def)

lemma load_pickle_miss:
  assumes "\<not> fresh f age_max w"
  shows "load_pickle f age_max w
         = (None, w\<lparr>trace := trace w @ (if files w f = None then [Exists f] else [Exists f, Stat f])\<rparr>)"
  using assms by (auto simp: load_pickle_def log_event_def fresh_def split: option.splits)

lemma fresh_iff:
  "fresh f age_max w \<longleftrightarrow>
     (\<exists>mtime content. files w f = Some (mtime, content)
        \<and> (case age_max of None \<Rightarrow> True | Some limit \<Rightarrow> clock w - mtime < limit))"
  by (auto simp: fresh_def split: option.splits)

lemma load_climbs_hit:
  assumes "files w DF_CLIMBS_PICKLE_PATH = Some (mtime, content)"
    and "clock w - mtime < timedelta_days 10"
  shows "load_climbs w
         = (Inr content,
            w\<lparr>trace := trace w @ [Exists DF_CLIMBS_PICKLE_PATH, Stat DF_CLIMBS_PICKLE_PATH,
                                    ReadPickle DF_CLIMBS_PICKLE_PATH]\<rparr>)"
  using assms by (simp add: load_climbs_def load_pickle_hit)

lemma load_climbs_miss:
  assumes "\<not> fresh DF_CLIMBS_PICKLE_PATH (Some (timedelta_days 10)) w"
  shows "load_climbs w
         = (let w2 = w\<lparr>trace := trace w
                         @ (if files w DF_CLIMBS_PICKLE_PATH = None
                            then [Exists DF_CLIMBS_PICKLE_PATH]
                            else [Exists DF_CLIMBS_PICKLE_PATH, Stat DF_CLIMBS_PICKLE_PATH])
                         @ [HttpGet URL_CLIMBS]\<rparr>
            in case fetch_climbs w of
                 Inl e \<Rightarrow> (Inl e, w2)
               | Inr df \<Rightarrow>
                   (Inr df,
                    w2\<lparr>files := (files w)(DF_CLIMBS_PICKLE_PATH \<mapsto> (clock w, df)),
                       trace := trace w2 @ [ToPickle DF_CLIMBS_PICKLE_PATH]\<rparr>))"
  using assms
  by (simp add: load_climbs_def load_pickle_miss fetch_climbs_def log_event_def
      save_df_to_pickle_def Let_def split: sum.splits)

lemma load_dates_grades_hit:
  assumes "files w DF_DATES_GRADES_PICKLE_PATH = Some (mtime, content)"
    and "clock w - mtime < timedelta_days 10"
  shows "load_dates_grades self w
         = (Inr content, self,
            w\<lparr>trace := trace w @ [Exists DF_DATES_GRADES_PICKLE_PATH,
                                    Stat DF_DATES_GRADES_PICKLE_PATH,
                                    ReadPickle DF_DATES_GRADES_PICKLE_PATH]\<rparr>)"
  using assms by (simp add: load_dates_grades_def load_pickle_hit)

lemma load_dates_grades_miss:
  assumes "\<not> fresh DF_DATES_GRADES_PICKLE_PATH (Some (timedelta_days 10)) w"
  shows "load_dates_grades self w
         = (let w1 = w\<lparr>trace := trace w
                         @ (if files w DF_DATES_GRADES_PICKLE_PATH = None
                            then [Exists DF_DATES_GRADES_PICKLE_PATH]
                            else [Exists DF_DATES_GRADES_PICKLE_PATH,
                                  Stat DF_DATES_GRADES_PICKLE_PATH])
                         @ [Compute DF_DATES_GRADES_PICKLE_PATH]\<rparr>
            in case fetch_dates_grades self of
                 Inl e \<Rightarrow> (Inl e, self, w1)
               | Inr df \<Rightarrow>
                   (Inr df, self,
                    w1\<lparr>files := (files w)(DF_DATES_GRADES_PICKLE_PATH \<mapsto> (clock w, df)),
                       trace := trace w1 @ [ToPickle DF_DATES_GRADES_PICKLE_PATH]\<rparr>))"
  using assms
  by (simp add: load_dates_grades_def load_pickle_miss fetch_dates_grades_def log_event_def
      save_df_to_pickle_def Let_def split: sum.splits)

lemma fresh_ten_days:
  "fresh f (Some (timedelta_days 10)) w \<Longrightarrow>
     \<exists>mtime content. files w f = Some (mtime, content) \<and> clock w - mtime < timedelta_days 10
        \<and> cached f w = Some content"
  by (auto simp: fresh_def cached_def split: option.splits)

lemma load_pickle_result:
  "fst (load_pickle f age_max w) = (if fresh f age_max w then cached f w else None)
   \<and> files (snd (load_pickle f age_max w)) = files w"
  by (auto simp: load_pickle_def log_event_def fresh_def cached_def Let_def
      split: option.splits)

lemma load_climbs_fresh:
  assumes "fresh DF_CLIMBS_PICKLE_PATH (Some (timedelta_days 10)) w"
  shows "\<exists>content. cached DF_CLIMBS_PICKLE_PATH w = Some content
           \<and> load_climbs w
             = (Inr content,
                w\<lparr>trace := trace w @ [Exists DF_CLIMBS_PICKLE_PATH, Stat DF_CLIMBS_PICKLE_PATH,
                                        ReadPickle DF_CLIMBS_PICKLE_PATH]\<rparr>)"
  using fresh_ten_days [OF assms] load_climbs_hit by blast

lemma load_dates_grades_fresh:
  assumes "fresh DF_DATES_GRADES_PICKLE_PATH (Some (timedelta_days 10)) w"
  shows "\<exists>content. cached DF_DATES_GRADES_PICKLE_PATH w = Some content
           \<and> load_dates_grades self w
             = (Inr content, self,
                w\<lparr>trace := trace w @ [Exists DF_DATES_GRADES_PICKLE_PATH,
                                        Stat DF_DATES_GRADES_PICKLE_PATH,
                                        ReadPickle DF_DATES_GRADES_PICKLE_PATH]\<rparr>)"
  using fresh_ten_days [OF assms] load_dates_grades_hit by blast

lemma paths_differ: "DF_CLIMBS_PICKLE_PATH \<noteq> DF_DATES_GRADES_PICKLE_PATH"
  by (simp add: DF_CLIMBS_PICKLE_PATH_def DF_DATES_GRADES_PICKLE_PATH_def)

lemma example_fetch_climbs: "fetch_climbs world_no_cache = Inr (Climbs example_climbs)"
  by (simp add: fetch_climbs_def world_no_cache_def example_response_def example_climbs_def
      normalise_def astype_datetime64_def typed_row_def fill_live_end_def has_live_start_def)

lemma example_fetch_dates_grades:
  "fetch_dates_grades \<lparr>climbs = Climbs example_climbs\<rparr> = Inr (DatesGrades example_cells)"
  by (simp add: fetch_dates_grades_def example_climbs_def example_cells_def eval_defs)

lemma example_fresh:
  "fresh DF_CLIMBS_PICKLE_PATH (Some (timedelta_days 10)) world_both_cached"
  "fresh DF_DATES_GRADES_PICKLE_PATH (Some (timedelta_days 10)) world_both_cached"
  "\<not> fresh DF_CLIMBS_PICKLE_PATH (Some (timedelta_days 10)) world_no_cache"
  "\<not> fresh DF_DATES_GRADES_PICKLE_PATH (Some (timedelta_days 10)) world_no_cache"
  "\<not> fresh DF_CLIMBS_PICKLE_PATH (Some (timedelta_days 10)) world_derived_cached"
  "fresh DF_DATES_GRADES_PICKLE_PATH (Some (timedelta_days 10)) world_derived_cached"
  using paths_differ
  by (simp_all add: fresh_def world_both_cached_def world_no_cache_def
      world_derived_cached_def timedelta_days_def)

lemma example_no_cache:
  "files world_no_cache = Map.empty" "clock world_no_cache = 1600000000"
  by (simp_all add: world_no_cache_def)

lemma example_cached:
  "cached DF_CLIMBS_PICKLE_PATH world_both_cached = Some (Climbs example_climbs)"
  "cached DF_DATES_GRADES_PICKLE_PATH world_both_cached = Some (DatesGrades example_cells)"
  using paths_differ by (simp_all add: cached_def world_both_cached_def)

text \<open>
  C5. \<open>_load_pickle\<close> returns the entry at the key exactly when the entry is fresh, for
  every key and every \<open>max_age\<close>, and with \<open>max_age = None\<close> every existing entry is
  fresh. For both caches of the program (threshold ten days): when the entry is fresh,
  the load returns it, leaves the files as they are and makes no request; otherwise the
  load returns what the fetch function returns, having made the request for the raw
  cache, and the file at the key holds the fetched table, written at the time of the
  load (a fetch that raises leaves the files as they are).
\<close>

theorem cache_loader_contract:
  "fst (load_pickle f age_max w) = (if fresh f age_max w then cached f w else None)
   \<and> (fresh f None w \<longleftrightarrow> files w f \<noteq> None)
   \<and> (fresh DF_CLIMBS_PICKLE_PATH (Some (timedelta_days 10)) w \<longrightarrow>
        (\<exists>content. cached DF_CLIMBS_PICKLE_PATH w = Some content
           \<and> fst (load_climbs w) = Inr content)
        \<and> files (snd (load_climbs w)) = files w
        \<and> fetches w (snd (load_climbs w)) = 0)
   \<and> (\<not> fresh DF_CLIMBS_PICKLE_PATH (Some (timedelta_days 10)) w \<longrightarrow>
        fst (load_climbs w) = fetch_climbs w
        \<and> HttpGet URL_CLIMBS \<in> set (new_events w (snd (load_climbs w)))
        \<and> files (snd (load_climbs w))
            = (case fetch_climbs w of
                 Inl e \<Rightarrow> files w
               | Inr df \<Rightarrow> (files w)(DF_CLIMBS_PICKLE_PATH \<mapsto> (clock w, df))))
   \<and> (fresh DF_DATES_GRADES_PICKLE_PATH (Some (timedelta_days 10)) w \<longrightarrow>
        (\<exists>content. cached DF_DATES_GRADES_PICKLE_PATH w = Some content
           \<and> fst (load_dates_grades self w) = Inr content)
        \<and> files (snd (snd (load_dates_grades self w))) = files w)
   \<and> (\<not> fresh DF_DATES_GRADES_PICKLE_PATH (Some (timedelta_days 10)) w \<longrightarrow>
        fst (load_dates_grades self w) = fetch_dates_grades self
        \<and> files (snd (snd (load_dates_grades self w)))
            = (case fetch_dates_grades self of
                 Inl e \<Rightarrow> files w
               | Inr df \<Rightarrow> (files w)(DF_DATES_GRADES_PICKLE_PATH \<mapsto> (clock w, df))))"
proof -
  have a: "fst (load_pickle f age_max w) = (if fresh f age_max w then cached f w else None)"
    by (simp add: load_pickle_result)
  have b: "fresh f None w \<longleftrightarrow> files w f \<noteq> None"
    by (auto simp: fresh_def split: option.splits)
  have c: "(\<exists>content. cached DF_CLIMBS_PICKLE_PATH w = Some content
              \<and> fst (load_climbs w) = Inr content)
           \<and> files (snd (load_climbs w)) = files w
           \<and> fetches w (snd (load_climbs w)) = 0"
    if "fresh DF_CLIMBS_PICKLE_PATH (Some (timedelta_days 10)) w"
    using load_climbs_fresh [OF that] by (auto simp: fetches_def new_events_def)
  have d: "fst (load_climbs w) = fetch_climbs w
        \<and> HttpGet URL_CLIMBS \<in> set (new_events w (snd (load_climbs w)))
        \<and> files (snd (load_climbs w))
            = (case fetch_climbs w of
                 Inl e \<Rightarrow> files w
               | Inr df \<Rightarrow> (files w)(DF_CLIMBS_PICKLE_PATH \<mapsto> (clock w, df)))"
    if "\<not> fresh DF_CLIMBS_PICKLE_PATH (Some (timedelta_days 10)) w"
    by (simp add: load_climbs_miss [OF that] Let_def new_events_def split: sum.splits)
  have e: "(\<exists>content. cached DF_DATES_GRADES_PICKLE_PATH w = Some content
              \<and> fst (load_dates_grades self w) = Inr content)
           \<and> files (snd (snd (load_dates_grades self w))) = files w"
    if "fresh DF_DATES_GRADES_PICKLE_PATH (Some (timedelta_days 10)) w"
    using load_dates_grades_fresh [OF that, of self] by auto
  have g: "fst (load_dates_grades self w) = fetch_dates_grades self
        \<and> files (snd (snd (load_dates_grades self w)))
            = (case fetch_dates_grades self of
                 Inl e \<Rightarrow> files w
               | Inr df \<Rightarrow> (files w)(DF_DATES_GRADES_PICKLE_PATH \<mapsto> (clock w, df)))"
    if "\<not> fresh DF_DATES_GRADES_PICKLE_PATH (Some (timedelta_days 10)) w"
    by (simp add: load_dates_grades_miss [OF that] Let_def split: sum.splits)
  from a b c d e g show ?thesis by blast
qed

theorem cache_loader_contract_witness:
  "fresh DF_CLIMBS_PICKLE_PATH (Some (timedelta_days 10)) world_both_cached
   \<and> fst (load_climbs world_both_cached) = Inr (Climbs example_climbs)
   \<and> files (snd (load_climbs world_both_cached)) = files world_both_cached
   \<and> fst (load_dates_grades \<lparr>climbs = Climbs example_climbs\<rparr> world_both_cached)
       = Inr (DatesGrades example_cells)
   \<and> \<not> fresh DF_CLIMBS_PICKLE_PATH (Some (timedelta_days 10)) world_no_cache
   \<and> fst (load_climbs world_no_cache) = Inr (Climbs example_climbs)
   \<and> files (snd (load_climbs world_no_cache)) DF_CLIMBS_PICKLE_PATH
       = Some (1600000000, Climbs example_climbs)
   \<and> fst (load_dates_grades \<lparr>climbs = Climbs example_climbs\<rparr> world_no_cache)
       = Inr (DatesGrades example_cells)
   \<and> files (snd (snd (load_dates_grades \<lparr>climbs = Climbs example_climbs\<rparr> world_no_cache)))
       DF_DATES_GRADES_PICKLE_PATH
       = Some (1600000000, DatesGrades example_cells)"
  using cache_loader_contract
          [of DF_CLIMBS_PICKLE_PATH None world_both_cached "\<lparr>climbs = Climbs example_climbs\<rparr>"]
        cache_loader_contract
          [of DF_CLIMBS_PICKLE_PATH None world_no_cache "\<lparr>climbs = Climbs example_climbs\<rparr>"]
        example_fresh
  by (simp add: example_cached example_fetch_climbs example_fetch_dates_grades
      example_no_cache)

text \<open>
  C6, as the code has it. A load that finds a fresh entry reads the cache file once,
  invokes no fetch function and writes nothing. A load that does not reads nothing
  and invokes its fetch function exactly once (the request for the raw cache, the
  computation of the derived table for the derived cache); it writes the cache file
  exactly once when the fetch function returns a table, and not at all when the fetch
  function raises, the exception ending the run.
\<close>

theorem side_effect_counts:
  "(fresh DF_CLIMBS_PICKLE_PATH (Some (timedelta_days 10)) w \<longrightarrow>
      reads w (snd (load_climbs w)) = 1
      \<and> fetches w (snd (load_climbs w)) = 0
      \<and> writes w (snd (load_climbs w)) = 0)
   \<and> (\<not> fresh DF_CLIMBS_PICKLE_PATH (Some (timedelta_days 10)) w \<longrightarrow>
      reads w (snd (load_climbs w)) = 0
      \<and> fetches w (snd (load_climbs w)) = 1
      \<and> writes w (snd (load_climbs w))
          = (case fst (load_climbs w) of Inl e \<Rightarrow> 0 | Inr df \<Rightarrow> 1))
   \<and> expansions w (snd (load_climbs w)) = 0
   \<and> (fresh DF_DATES_GRADES_PICKLE_PATH (Some (timedelta_days 10)) w \<longrightarrow>
      reads w (snd (snd (load_dates_grades self w))) = 1
      \<and> expansions w (snd (snd (load_dates_grades self w))) = 0
      \<and> writes w (snd (snd (load_dates_grades self w))) = 0)
   \<and> (\<not> fresh DF_DATES_GRADES_PICKLE_PATH (Some (timedelta_days 10)) w \<longrightarrow>
      reads w (snd (snd (load_dates_grades self w))) = 0
      \<and> expansions w (snd (snd (load_dates_grades self w))) = 1
      \<and> writes w (snd (snd (load_dates_grades self w)))
          = (case fst (load_dates_grades self w) of Inl e \<Rightarrow> 0 | Inr df \<Rightarrow> 1))
   \<and> fetches w (snd (snd (load_dates_grades self w))) = 0"
proof -
  have c: "reads w (snd (load_climbs w)) = 1
      \<and> fetches w (snd (load_climbs w)) = 0
      \<and> writes w (snd (load_climbs w)) = 0
      \<and> expansions w (snd (load_climbs w)) = 0"
    if "fresh DF_CLIMBS_PICKLE_PATH (Some (timedelta_days 10)) w"
    using load_climbs_fresh [OF that]
    by (auto simp: reads_def fetches_def writes_def expansions_def new_events_def)
  have d: "reads w (snd (load_climbs w)) = 0
      \<and> fetches w (snd (load_climbs w)) = 1
      \<and> writes w (snd (load_climbs w))
          = (case fst (load_climbs w) of Inl e \<Rightarrow> 0 | Inr df \<Rightarrow> 1)
      \<and> expansions w (snd (load_climbs w)) = 0"
    if "\<not> fresh DF_CLIMBS_PICKLE_PATH (Some (timedelta_days 10)) w"
    by (simp add: load_climbs_miss [OF that] Let_def reads_def fetches_def writes_def
        expansions_def new_events_def split: sum.splits)
  have e: "reads w (snd (snd (load_dates_grades self w))) = 1
      \<and> expansions w (snd (snd (load_dates_grades self w))) = 0
      \<and> writes w (snd (snd (load_dates_grades self w))) = 0
      \<and> fetches w (snd (snd (load_dates_grades self w))) = 0"
    if "fresh DF_DATES_GRADES_PICKLE_PATH (Some (timedelta_days 10)) w"
    using load_dates_grades_fresh [OF that, of self]
    by (auto simp: reads_def fetches_def writes_def expansions_def new_events_def)
  have g: "reads w (snd (snd (load_dates_grades self w))) = 0
      \<and> expansions w (snd (snd (load_dates_grades self w))) = 1
      \<and> writes w (snd (snd (load_dates_grades self w)))
          = (case fst (load_dates_grades self w) of Inl e \<Rightarrow> 0 | Inr df \<Rightarrow> 1)
      \<and> fetches w (snd (snd (load_dates_grades self w))) = 0"
    if "\<not> fresh DF_DATES_GRADES_PICKLE_PATH (Some (timedelta_days 10)) w"
    by (simp add: load_dates_grades_miss [OF that] Let_def reads_def fetches_def writes_def
        expansions_def new_events_def split: sum.splits)
  from c d e g show ?thesis by blast
qed

theorem side_effect_counts_witness:
  "reads world_both_cached (snd (load_climbs world_both_cached)) = 1
   \<and> fetches world_both_cached (snd (load_climbs world_both_cached)) = 0
   \<and> writes world_both_cached (snd (load_climbs world_both_cached)) = 0
   \<and> reads world_no_cache (snd (load_climbs world_no_cache)) = 0
   \<and> fetches world_no_cache (snd (load_climbs world_no_cache)) = 1
   \<and> writes world_no_cache (snd (load_climbs world_no_cache)) = 1
   \<and> reads world_both_cached
       (snd (snd (load_dates_grades \<lparr>climbs = Climbs example_climbs\<rparr> world_both_cached))) = 1
   \<and> expansions world_both_cached
       (snd (snd (load_dates_grades \<lparr>climbs = Climbs example_climbs\<rparr> world_both_cached))) = 0
   \<and> writes world_both_cached
       (snd (snd (load_dates_grades \<lparr>climbs = Climbs example_climbs\<rparr> world_both_cached))) = 0
   \<and> reads world_no_cache
       (snd (snd (load_dates_grades \<lparr>climbs = Climbs example_climbs\<rparr> world_no_cache))) = 0
   \<and> expansions world_no_cache
       (snd (snd (load_dates_grades \<lparr>climbs = Climbs example_climbs\<rparr> world_no_cache))) = 1
   \<and> writes world_no_cache
       (snd (snd (load_dates_grades \<lparr>climbs = Climbs example_climbs\<rparr> world_no_cache))) = 1"
proof -
  have a: "fst (load_climbs world_no_cache) = Inr (Climbs example_climbs)"
    by (simp add: load_climbs_miss [OF example_fresh(3)] Let_def example_fetch_climbs)
  have b: "fst (load_dates_grades \<lparr>climbs = Climbs example_climbs\<rparr> world_no_cache)
             = Inr (DatesGrades example_cells)"
    by (simp add: load_dates_grades_miss [OF example_fresh(4)] Let_def
        example_fetch_dates_grades)
  from side_effect_counts [of world_both_cached "\<lparr>climbs = Climbs example_climbs\<rparr>"]
       side_effect_counts [of world_no_cache "\<lparr>climbs = Climbs example_climbs\<rparr>"]
       example_fresh
  show ?thesis by (simp add: a b)
qed

text \<open>
  C6 as stated fails: with no raw cache file and a request that fails, the load misses
  the cache, makes the request, and writes no cache file.
\<close>

theorem miss_without_write_counterexample:
  "\<not> fresh DF_CLIMBS_PICKLE_PATH (Some (timedelta_days 10)) world_request_fails
   \<and> fst (load_climbs world_request_fails) = Inl RequestError
   \<and> fetches world_request_fails (snd (load_climbs world_request_fails)) = 1
   \<and> writes world_request_fails (snd (load_climbs world_request_fails)) = 0"
proof -
  have f: "\<not> fresh DF_CLIMBS_PICKLE_PATH (Some (timedelta_days 10)) world_request_fails"
    by (simp add: fresh_def world_request_fails_def)
  have r: "fetch_climbs world_request_fails = Inl RequestError"
    by (simp add: fetch_climbs_def world_request_fails_def)
  show ?thesis
    by (simp add: f load_climbs_miss [OF f] r Let_def fetches_def writes_def new_events_def)
qed

text \<open>
  C9. The steps of a run are those of \<open>_load_climbs\<close>, which start with the look at the
  raw cache file and touch the derived cache nowhere, followed by steps of the derived
  cache only (the looks at its file, the computation of its table, its write). So when
  the raw cache is absent or stale, the request is made before the derived cache is
  looked at, whether that one is fresh or not.
\<close>

theorem raw_load_precedes_derived:
  "\<exists>t1 t2. trace (snd (run w)) = trace w @ t1 @ t2
     \<and> trace (snd (load_climbs w)) = trace w @ t1
     \<and> t1 \<noteq> [] \<and> hd t1 = Exists DF_CLIMBS_PICKLE_PATH
     \<and> (\<forall>e\<in>set t1. event_path e \<noteq> Some DF_DATES_GRADES_PICKLE_PATH)
     \<and> (\<forall>e\<in>set t2. event_path e = Some DF_DATES_GRADES_PICKLE_PATH)
     \<and> (\<not> fresh DF_CLIMBS_PICKLE_PATH (Some (timedelta_days 10)) w
          \<longrightarrow> HttpGet URL_CLIMBS \<in> set t1)"
proof -
  have ne: "DF_CLIMBS_PICKLE_PATH \<noteq> DF_DATES_GRADES_PICKLE_PATH"
    by (simp add: DF_CLIMBS_PICKLE_PATH_def DF_DATES_GRADES_PICKLE_PATH_def)
  have raw: "\<exists>t1. trace (snd (load_climbs w)) = trace w @ t1
     \<and> t1 \<noteq> [] \<and> hd t1 = Exists DF_CLIMBS_PICKLE_PATH
     \<and> (\<forall>e\<in>set t1. event_path e \<noteq> Some DF_DATES_GRADES_PICKLE_PATH)
     \<and> (\<not> fresh DF_CLIMBS_PICKLE_PATH (Some (timedelta_days 10)) w
          \<longrightarrow> HttpGet URL_CLIMBS \<in> set t1)"
  proof (cases "fresh DF_CLIMBS_PICKLE_PATH (Some (timedelta_days 10)) w")
    case True
    from load_climbs_fresh [OF True] ne True show ?thesis by auto
  next
    case False
    show ?thesis
      using ne by (auto simp: load_climbs_miss [OF False] Let_def split: sum.splits)
  qed
  have derived: "\<exists>t2. trace (snd (snd (load_dates_grades self w1))) = trace w1 @ t2
     \<and> (\<forall>e\<in>set t2. event_path e = Some DF_DATES_GRADES_PICKLE_PATH)"
    for self :: "'a PlotClimbs" and w1 :: "'a world"
  proof (cases "fresh DF_DATES_GRADES_PICKLE_PATH (Some (timedelta_days 10)) w1")
    case True
    from load_dates_grades_fresh [OF True, of self] show ?thesis by auto
  next
    case False
    show ?thesis
      by (auto simp: load_dates_grades_miss [OF False] Let_def split: sum.splits)
  qed
  from raw obtain t1 where t1: "trace (snd (load_climbs w)) = trace w @ t1"
     "t1 \<noteq> []" "hd t1 = Exists DF_CLIMBS_PICKLE_PATH"
     "\<forall>e\<in>set t1. event_path e \<noteq> Some DF_DATES_GRADES_PICKLE_PATH"
     "\<not> fresh DF_CLIMBS_PICKLE_PATH (Some (timedelta_days 10)) w
          \<longrightarrow> HttpGet URL_CLIMBS \<in> set t1" by blast
  obtain r w1 where lc: "load_climbs w = (r, w1)" by (cases "load_climbs w")
  have "\<exists>t2. trace (snd (run w)) = trace w1 @ t2
     \<and> (\<forall>e\<in>set t2. event_path e = Some DF_DATES_GRADES_PICKLE_PATH)"
  proof (cases r)
    case (Inl e)
    with lc show ?thesis by (simp add: run_def init_def)
  next
    case (Inr df)
    from derived [of "\<lparr>climbs = df\<rparr>" w1] obtain t2 where
      "trace (snd (snd (load_dates_grades \<lparr>climbs = df\<rparr> w1))) = trace w1 @ t2"
      "\<forall>e\<in>set t2. event_path e = Some DF_DATES_GRADES_PICKLE_PATH" by blast
    with lc Inr show ?thesis
      by (auto simp: run_def init_def main_def climbs_grades_def split: prod.splits)
  qed
  then obtain t2 where t2: "trace (snd (run w)) = trace w1 @ t2"
     "\<forall>e\<in>set t2. event_path e = Some DF_DATES_GRADES_PICKLE_PATH" by blast
  from t1(1) lc have "trace w1 = trace w @ t1" by simp
  with t2(1) have "trace (snd (run w)) = trace w @ t1 @ t2" by simp
  with t1 t2(2) show ?thesis by blast
qed

theorem raw_load_precedes_derived_witness:
  "\<not> fresh DF_CLIMBS_PICKLE_PATH (Some (timedelta_days 10)) world_derived_cached
   \<and> fresh DF_DATES_GRADES_PICKLE_PATH (Some (timedelta_days 10)) world_derived_cached
   \<and> HttpGet URL_CLIMBS \<in> set (trace (snd (run world_derived_cached)))"
proof -
  from raw_load_precedes_derived [of world_derived_cached] example_fresh(5)
  obtain t1 t2 where
    "trace (snd (run world_derived_cached)) = trace world_derived_cached @ t1 @ t2"
    "HttpGet URL_CLIMBS \<in> set t1" by blast
  then have "HttpGet URL_CLIMBS \<in> set (trace (snd (run world_derived_cached)))" by simp
  with example_fresh(5,6) show ?thesis by simp
qed

section \<open>The expansion leaves the climbs table as it is\<close>

lemma unchanged_below_refl: "n \<le> next_ref h \<Longrightarrow> unchanged_below n h h"
  by (simp add: unchanged_below_def)

lemma unchanged_below_trans:
  "unchanged_below n h h1 \<Longrightarrow> unchanged_below (next_ref h1) h1 h2 \<Longrightarrow> unchanged_below n h h2"
  by (auto simp: unchanged_below_def)

lemma unchanged_below_mono:
  "unchanged_below m h h' \<Longrightarrow> n \<le> m \<Longrightarrow> unchanged_below n h h'"
  by (auto simp: unchanged_below_def)

lemma alloc_unchanged: "unchanged_below (next_ref h) h (snd (alloc obj h))"
  by (simp add: alloc_def unchanged_below_def)

lemma mask_rows_unchanged: "unchanged_below (next_ref h) h (snd (mask_rows keep df h))"
  by (simp add: mask_rows_def alloc_def unchanged_below_def
      split: object.splits dataframe.splits)

lemma mask_rows_Climbs:
  assumes "objects h df = Frame (Climbs cl)"
  shows "\<exists>h'. mask_rows keep df h = (Inr (next_ref h), h')
           \<and> objects h' (next_ref h) = Frame (Climbs (filter keep cl))"
  using assms by (simp add: mask_rows_def alloc_def)

lemma routes_st_unchanged:
  "unchanged_below (next_ref h) h (snd (routes_avail_per_day_st self_climbs date_grade h))"
proof -
  obtain date g where dg: "date_grade = (date, g)" by (cases date_grade)
  obtain r1 h1 where m1: "mask_rows (\<lambda>c. grade c = g) self_climbs h = (r1, h1)"
    by (cases "mask_rows (\<lambda>c. grade c = g) self_climbs h")
  have u1: "unchanged_below (next_ref h) h h1"
    using mask_rows_unchanged [of h "\<lambda>c. grade c = g" self_climbs] m1 by simp
  show ?thesis
  proof (cases r1)
    case (Inl e)
    with dg m1 u1 show ?thesis by (simp add: routes_avail_per_day_st_def)
  next
    case (Inr t1)
    obtain r2 h2 where m2: "mask_rows (starts_by date) t1 h1 = (r2, h2)"
      by (cases "mask_rows (starts_by date) t1 h1")
    have u2: "unchanged_below (next_ref h) h h2"
      using unchanged_below_trans [OF u1] mask_rows_unchanged [of h1 "starts_by date" t1] m2
      by simp
    show ?thesis
    proof (cases r2)
      case (Inl e)
      with dg m1 m2 \<open>r1 = Inr t1\<close> u2 show ?thesis
        by (simp add: routes_avail_per_day_st_def)
    next
      case (Inr t2)
      obtain r3 h3 where m3: "mask_rows (ends_from date) t2 h2 = (r3, h3)"
        by (cases "mask_rows (ends_from date) t2 h2")
      have u3: "unchanged_below (next_ref h) h h3"
        using unchanged_below_trans [OF u2] mask_rows_unchanged [of h2 "ends_from date" t2] m3
        by simp
      with dg m1 m2 m3 \<open>r1 = Inr t1\<close> \<open>r2 = Inr t2\<close> show ?thesis
        by (cases r3) (simp_all add: routes_avail_per_day_st_def)
    qed
  qed
qed

lemma routes_st_result:
  assumes "objects h self_climbs = Frame (Climbs cl)"
  shows "fst (routes_avail_per_day_st self_climbs date_grade h)
         = Inr (routes_avail_per_day cl date_grade)"
proof -
  obtain date g where dg: "date_grade = (date, g)" by (cases date_grade)
  from mask_rows_Climbs [OF assms, of "\<lambda>c. grade c = g"] obtain h1 where
    m1: "mask_rows (\<lambda>c. grade c = g) self_climbs h = (Inr (next_ref h), h1)"
    and c1: "objects h1 (next_ref h) = Frame (Climbs (filter (\<lambda>c. grade c = g) cl))" by blast
  from mask_rows_Climbs [OF c1, of "starts_by date"] obtain h2 where
    m2: "mask_rows (starts_by date) (next_ref h) h1 = (Inr (next_ref h1), h2)"
    and c2: "objects h2 (next_ref h1)
             = Frame (Climbs (filter (starts_by date) (filter (\<lambda>c. grade c = g) cl)))" by blast
  from mask_rows_Climbs [OF c2, of "ends_from date"] obtain h3 where
    m3: "mask_rows (ends_from date) (next_ref h1) h2 = (Inr (next_ref h2), h3)"
    and c3: "objects h3 (next_ref h2)
             = Frame (Climbs (filter (ends_from date)
                 (filter (starts_by date) (filter (\<lambda>c. grade c = g) cl))))" by blast
  show ?thesis
    by (simp add: routes_avail_per_day_st_def dg m1 m2 m3 count_ids_def c3
        routes_avail_per_day_def)
qed

lemma apply_rows_unchanged:
  "unchanged_below (next_ref h) h (snd (apply_rows self_climbs rows h))"
proof (induction rows arbitrary: h)
  case Nil
  show ?case by (simp add: unchanged_below_refl)
next
  case (Cons row rows)
  obtain r1 h1 where s1: "routes_avail_per_day_st self_climbs row h = (r1, h1)"
    by (cases "routes_avail_per_day_st self_climbs row h")
  have u1: "unchanged_below (next_ref h) h h1"
    using routes_st_unchanged [of h self_climbs row] s1 by simp
  show ?case
  proof (cases r1)
    case (Inl e)
    with s1 u1 show ?thesis by simp
  next
    case (Inr n)
    obtain r2 h2 where s2: "apply_rows self_climbs rows h1 = (r2, h2)"
      by (cases "apply_rows self_climbs rows h1")
    from Cons.IH [of h1] s2 have "unchanged_below (next_ref h1) h1 h2" by simp
    with u1 have "unchanged_below (next_ref h) h h2" by (rule unchanged_below_trans)
    with s1 s2 Inr show ?thesis by (cases r2) simp_all
  qed
qed

lemma apply_rows_result:
  assumes "objects h self_climbs = Frame (Climbs cl)" and "self_climbs < next_ref h"
  shows "fst (apply_rows self_climbs rows h) = Inr (map (routes_avail_per_day cl) rows)"
  using assms
proof (induction rows arbitrary: h)
  case Nil
  show ?case by simp
next
  case (Cons row rows)
  obtain r1 h1 where s1: "routes_avail_per_day_st self_climbs row h = (r1, h1)"
    by (cases "routes_avail_per_day_st self_climbs row h")
  from routes_st_result [OF Cons.prems(1), of row] s1
  have r1: "r1 = Inr (routes_avail_per_day cl row)" by simp
  have u1: "unchanged_below (next_ref h) h h1"
    using routes_st_unchanged [of h self_climbs row] s1 by simp
  with Cons.prems have "objects h1 self_climbs = Frame (Climbs cl)" "self_climbs < next_ref h1"
    by (auto simp: unchanged_below_def)
  from Cons.IH [OF this]
  have ih: "fst (apply_rows self_climbs rows h1) = Inr (map (routes_avail_per_day cl) rows)" .
  obtain r2 h2 where s2: "apply_rows self_climbs rows h1 = (r2, h2)"
    by (cases "apply_rows self_climbs rows h1")
  with ih have "r2 = Inr (map (routes_avail_per_day cl) rows)" by simp
  with s1 r1 s2 show ?case by simp
qed

lemma expand_st_Climbs:
  assumes "objects h self_climbs = Frame (Climbs cl)" and "date_axis cl = Inr dates"
  shows "expand_st self_climbs h
         = (case apply_rows self_climbs (List.product dates (grade_axis cl))
                  (h\<lparr>objects := (objects h)
                         (next_ref h := DatesFrame dates,
                          Suc (next_ref h) := CrossFrame (List.product dates (grade_axis cl))),
                      next_ref := Suc (Suc (next_ref h))\<rparr>) of
              (Inl e, h3) \<Rightarrow> (Inl e, h3)
            | (Inr result, h3) \<Rightarrow>
                (Inr (Suc (next_ref h)),
                 h3\<lparr>objects := (objects h3)
                        (Suc (next_ref h) :=
                           Frame (DatesGrades (zip (List.product dates (grade_axis cl)) result)))\<rparr>))"
  using assms by (simp add: expand_st_def alloc_def Let_def split: prod.splits sum.splits)

lemma expand_st_unchanged:
  "unchanged_below (next_ref h) h (snd (expand_st self_climbs h))"
proof (cases "\<exists>cl dates. objects h self_climbs = Frame (Climbs cl) \<and> date_axis cl = Inr dates")
  case False
  then have "snd (expand_st self_climbs h) = h"
    by (auto simp: expand_st_def split: object.splits dataframe.splits sum.splits)
  then show ?thesis by (simp add: unchanged_below_refl)
next
  case True
  then obtain cl dates where c: "objects h self_climbs = Frame (Climbs cl)"
    and d: "date_axis cl = Inr dates" by blast
  define rows where "rows = List.product dates (grade_axis cl)"
  define h2 where "h2 = h\<lparr>objects := (objects h)
                         (next_ref h := DatesFrame dates,
                          Suc (next_ref h) := CrossFrame rows),
                      next_ref := Suc (Suc (next_ref h))\<rparr>"
  have u2: "unchanged_below (next_ref h) h h2" and n2: "next_ref h2 = Suc (Suc (next_ref h))"
    by (simp_all add: h2_def unchanged_below_def)
  obtain r3 h3 where a: "apply_rows self_climbs rows h2 = (r3, h3)"
    by (cases "apply_rows self_climbs rows h2")
  from apply_rows_unchanged [of h2 self_climbs rows] a
  have u3: "unchanged_below (next_ref h2) h2 h3" by simp
  from u2 u3 have u: "unchanged_below (next_ref h) h h3" by (rule unchanged_below_trans)
  then have u': "unchanged_below (next_ref h) h
                 (h3\<lparr>objects := (objects h3)(Suc (next_ref h) := obj)\<rparr>)" for obj
    by (auto simp: unchanged_below_def)
  from u u' a show ?thesis
    unfolding expand_st_Climbs [OF c d] rows_def [symmetric] h2_def [symmetric]
    by (cases r3) simp_all
qed

lemma expand_st_result:
  assumes c: "objects h self_climbs = Frame (Climbs cl)" and lt: "self_climbs < next_ref h"
  shows "case expand (Climbs cl) of
           Inl e \<Rightarrow> fst (expand_st self_climbs h) = Inl e
         | Inr table \<Rightarrow>
             fst (expand_st self_climbs h) = Inr (Suc (next_ref h))
             \<and> objects (snd (expand_st self_climbs h)) (Suc (next_ref h))
                 = Frame (DatesGrades table)"
proof (cases "date_axis cl")
  case (Inl e)
  with c show ?thesis by (simp add: expand_Climbs expand_st_def)
next
  case (Inr dates)
  define rows where "rows = List.product dates (grade_axis cl)"
  define h2 where "h2 = h\<lparr>objects := (objects h)
                         (next_ref h := DatesFrame dates,
                          Suc (next_ref h) := CrossFrame rows),
                      next_ref := Suc (Suc (next_ref h))\<rparr>"
  from c lt have c2: "objects h2 self_climbs = Frame (Climbs cl)"
    and lt2: "self_climbs < next_ref h2" by (simp_all add: h2_def)
  obtain r3 h3 where a: "apply_rows self_climbs rows h2 = (r3, h3)"
    by (cases "apply_rows self_climbs rows h2")
  from apply_rows_result [OF c2 lt2, of rows] a
  have r3: "r3 = Inr (map (routes_avail_per_day cl) rows)" by simp
  have st: "expand_st self_climbs h
            = (Inr (Suc (next_ref h)),
               h3\<lparr>objects := (objects h3)
                      (Suc (next_ref h) :=
                         Frame (DatesGrades (zip rows (map (routes_avail_per_day cl) rows))))\<rparr>)"
    unfolding expand_st_Climbs [OF c Inr] rows_def [symmetric] h2_def [symmetric]
    by (simp add: a r3)
  have "expand (Climbs cl) = Inr (zip rows (map (routes_avail_per_day cl) rows))"
    by (simp add: expand_Climbs Inr rows_def zip_map_same)
  with st show ?thesis by simp
qed

text \<open>
  C10. Computing the derived table changes no object that existed before, so the frame
  \<open>self.climbs\<close> refers to is the same after it as before, row for row; the same holds
  for each call of \<open>_routes_avail_per_day\<close>. The only object written after it was made
  is the new frame \<open>df\<close>, which gets the column \<open>count\<close>. On a climbs table the counts
  and the derived table are those of the functions above.
\<close>

theorem expansion_keeps_climbs:
  assumes "self_climbs < next_ref h"
  shows "objects (snd (expand_st self_climbs h)) self_climbs = objects h self_climbs
       \<and> (\<forall>a<next_ref h. objects (snd (expand_st self_climbs h)) a = objects h a)
       \<and> (\<forall>a<next_ref h.
             objects (snd (routes_avail_per_day_st self_climbs date_grade h)) a = objects h a)
       \<and> (objects h self_climbs = Frame (Climbs cl) \<longrightarrow>
            fst (routes_avail_per_day_st self_climbs date_grade h)
              = Inr (routes_avail_per_day cl date_grade)
            \<and> (case expand (Climbs cl) of
                 Inl e \<Rightarrow> fst (expand_st self_climbs h) = Inl e
               | Inr table \<Rightarrow>
                   (\<exists>df. fst (expand_st self_climbs h) = Inr df \<and> next_ref h \<le> df
                      \<and> objects (snd (expand_st self_climbs h)) df = Frame (DatesGrades table))))"
proof -
  have e: "\<forall>a<next_ref h. objects (snd (expand_st self_climbs h)) a = objects h a"
    using expand_st_unchanged [of h self_climbs] by (simp add: unchanged_below_def)
  have r: "\<forall>a<next_ref h.
             objects (snd (routes_avail_per_day_st self_climbs date_grade h)) a = objects h a"
    using routes_st_unchanged [of h self_climbs date_grade] by (simp add: unchanged_below_def)
  have res: "case expand (Climbs cl) of
                 Inl e \<Rightarrow> fst (expand_st self_climbs h) = Inl e
               | Inr table \<Rightarrow>
                   (\<exists>df. fst (expand_st self_climbs h) = Inr df \<and> next_ref h \<le> df
                      \<and> objects (snd (expand_st self_climbs h)) df = Frame (DatesGrades table))"
    if "objects h self_climbs = Frame (Climbs cl)"
    using expand_st_result [OF that assms] by (auto split: sum.splits)
  from e r res assms routes_st_result [of h self_climbs cl date_grade] show ?thesis by simp
qed

theorem expansion_keeps_climbs_witness:
  "objects (snd (expand_st 0 example_store)) 0 = Frame (Climbs example_climbs)
   \<and> (\<exists>df. fst (expand_st 0 example_store) = Inr df
         \<and> objects (snd (expand_st 0 example_store)) df = Frame (DatesGrades example_cells))"
proof -
  have h: "0 < next_ref example_store" by (simp add: example_store_def)
  have c: "objects example_store 0 = Frame (Climbs example_climbs)"
    by (simp add: example_store_def)
  have e: "expand (Climbs example_climbs) = Inr example_cells"
    by (simp add: example_climbs_def example_cells_def eval_defs)
  from expansion_keeps_climbs [OF h, of "(0, 0)" example_climbs] c e
  show ?thesis by auto
qed

end
